theory Spec2Isabelle
  imports Complex_Main
begin

section \<open>createlib/custom\_timer.py: the fixed-rate timer\<close>

text \<open>
  Python floats (the values of \<^verbatim>\<open>time.time()\<close>, \<^verbatim>\<open>interval\<close> and
  \<^verbatim>\<open>next_call\<close>) are modelled as exact reals: sums and differences are the
  mathematical ones, rounding is not modelled.

  A \<^verbatim>\<open>threading.Timer\<close> object is an entry of a list of all timer objects the
  scheduler has created; its handle is its index. A started timer waits for its delay
  and then calls its function unless it has been cancelled before; \<^verbatim>\<open>cancel()\<close>
  on a timer whose function is already running has no effect.
\<close>

datatype tstatus = Waiting | Cancelled | Fired

record Timer =
  delay :: real
  status :: tstatus

text \<open>
  The fields of \<^verbatim>\<open>CustomTimer\<close>. \<^verbatim>\<open>_timer\<close> and \<^verbatim>\<open>_stopped\<close> lose
  their underscore; \<^verbatim>\<open>function\<close>, \<^verbatim>\<open>args\<close> and \<^verbatim>\<open>kwargs\<close> are the
  callback, which enters the model through its outcome; \<^verbatim>\<open>_lock\<close> is held for the
  whole body of \<^verbatim>\<open>start\<close> and of \<^verbatim>\<open>stop\<close>, which are therefore atomic steps.
\<close>

record CustomTimer =
  interval :: real
  repeat :: bool
  timer :: "nat option"
  stopped :: bool
  next_call :: "real option"

text \<open>
  The scheduler together with the timer objects it created and the number of
  invocations of \<^verbatim>\<open>_run\<close> whose callback has been entered and whose
  \<^verbatim>\<open>finally\<close> clause has not run yet.
\<close>

record world =
  obj :: CustomTimer
  heap :: "Timer list"
  inflight :: nat

text \<open>\<^verbatim>\<open>not self.next_call\<close>: Python's truth test, true for \<^verbatim>\<open>None\<close> and for \<^verbatim>\<open>0.0\<close>.\<close>

definition falsy :: "real option \<Rightarrow> bool" where
  "falsy nc = (case nc of None \<Rightarrow> True | Some d \<Rightarrow> d = 0)"

text \<open>\<^verbatim>\<open>Timer(delay, self._run)\<close> followed by \<^verbatim>\<open>.start()\<close>: a new waiting timer.\<close>

definition new_timer :: "real \<Rightarrow> Timer list \<Rightarrow> Timer list" where
  "new_timer d h = h @ [\<lparr>delay = d, status = Waiting\<rparr>]"

text \<open>\<^verbatim>\<open>Timer.cancel()\<close>: stops a timer that is still waiting.\<close>

definition cancel :: "nat \<Rightarrow> Timer list \<Rightarrow> Timer list" where
  "cancel i h =
     (if i < length h \<and> status (h ! i) = Waiting then h[i := (h ! i)\<lparr>status := Cancelled\<rparr>]
      else h)"

text \<open>
  \<^verbatim>\<open>CustomTimer.start(from_run)\<close>; \<open>now\<close> is the value \<^verbatim>\<open>time.time()\<close>
  returns. In the branch \<^verbatim>\<open>self.next_call += self.interval\<close> the deadline is present
  (it is not falsy), so the \<open>None\<close> case there is never taken.
\<close>

definition start :: "bool \<Rightarrow> real \<Rightarrow> world \<Rightarrow> world" where
  "start from_run now w =
     (if from_run \<or> stopped (obj w) then
        let nc = (if falsy (next_call (obj w)) then now + interval (obj w)
                  else (case next_call (obj w) of
                          Some d \<Rightarrow> d + interval (obj w)
                        | None \<Rightarrow> now + interval (obj w)));
            d = max 0 (nc - now)
        in w\<lparr>obj := (obj w)\<lparr>next_call := Some nc,
                              timer := Some (length (heap w)),
                              stopped := False\<rparr>,
              heap := new_timer d (heap w)\<rparr>
      else w)"

text \<open>\<^verbatim>\<open>CustomTimer.stop()\<close>.\<close>

definition stop :: "world \<Rightarrow> world" where
  "stop w =
     w\<lparr>obj := (obj w)\<lparr>timer := None, stopped := True, next_call := None\<rparr>,
       heap := (case timer (obj w) of None \<Rightarrow> heap w | Some i \<Rightarrow> cancel i (heap w))\<rparr>"

text \<open>\<^verbatim>\<open>CustomTimer.__init__\<close>, with the clock value its \<^verbatim>\<open>start()\<close> would read.\<close>

definition init :: "real \<Rightarrow> bool \<Rightarrow> bool \<Rightarrow> real \<Rightarrow> world" where
  "init I rep autostart now =
     (let w = \<lparr>obj = \<lparr>interval = I, repeat = rep, timer = None, stopped = True,
                      next_call = None\<rparr>,
               heap = [], inflight = 0\<rparr>
      in if autostart then start False now w else w)"

text \<open>
  \<^verbatim>\<open>CustomTimer._run\<close>. The callback either returns or raises; the \<^verbatim>\<open>finally\<close>
  clause runs in both cases, and an exception of the callback propagates after it.
\<close>

datatype outcome = Returned | Raised

definition run_finally :: "real \<Rightarrow> world \<Rightarrow> world" where
  "run_finally now w = (if repeat (obj w) then start True now w else stop w)"

definition run :: "outcome \<Rightarrow> real \<Rightarrow> world \<Rightarrow> world \<times> outcome" where
  "run cb now w = (run_finally now w, cb)"

subsection \<open>Interleavings of the caller's thread and the timer threads\<close>

text \<open>
  The atomic steps: an external \<^verbatim>\<open>start()\<close> or \<^verbatim>\<open>stop()\<close>; a waiting timer
  expiring, which enters \<^verbatim>\<open>_run\<close> and the callback; and a running callback ending,
  which executes the \<^verbatim>\<open>finally\<close> clause of \<^verbatim>\<open>_run\<close>. A step that is not
  enabled yields \<open>None\<close>.
\<close>

datatype event = CallStart real | CallStop | Fire nat | Finish outcome real

fun step :: "event \<Rightarrow> world \<Rightarrow> world option" where
  "step (CallStart now) w = Some (start False now w)"
| "step CallStop w = Some (stop w)"
| "step (Fire i) w =
     (if i < length (heap w) \<and> status (heap w ! i) = Waiting
      then Some (w\<lparr>heap := (heap w)[i := (heap w ! i)\<lparr>status := Fired\<rparr>],
                   inflight := inflight w + 1\<rparr>)
      else None)"
| "step (Finish cb now) w =
     (if 0 < inflight w
      then Some ((fst (run cb now w))\<lparr>inflight := inflight w - 1\<rparr>)
      else None)"

fun exec :: "event list \<Rightarrow> world \<Rightarrow> world option" where
  "exec [] w = Some w"
| "exec (e # es) w = (case step e w of None \<Rightarrow> None | Some w' \<Rightarrow> exec es w')"

text \<open>The timers that are armed: started, neither cancelled nor expired.\<close>

definition armed :: "world \<Rightarrow> nat list" where
  "armed w = filter (\<lambda>i. status (heap w ! i) = Waiting) [0..<length (heap w)]"

text \<open>
  The clock values a step reads. \<^verbatim>\<open>time.time()\<close> counts the seconds since the
  epoch, so the runs of interest read values that are not negative.
\<close>

fun clock_nonneg :: "event \<Rightarrow> bool" where
  "clock_nonneg (CallStart now) = (0 \<le> now)"
| "clock_nonneg (Finish cb now) = (0 \<le> now)"
| "clock_nonneg CallStop = True"
| "clock_nonneg (Fire i) = True"

section \<open>Create2\_proj.py: the tethered drive application\<close>

text \<open>
  The application uses the class \<^verbatim>\<open>Create2\<close> of createlib/create\_robot.py
  through its methods only: a connected robot is the bare handle \<open>Create2\<close>, and
  what the application does to it is the list of the methods it calls, in order. The
  attribute \<^verbatim>\<open>self.robot\<close> is \<^verbatim>\<open>None\<close> before a connection, a handle after
  it, and absent after \<^verbatim>\<open>del self.robot\<close>.
\<close>

datatype robot_attr = Attr_deleted | Py_None | Create2

datatype robot_call =
    Start | Safe | Full | Clean | Reset | Get_sensors
  | CreateSong nat "nat list" | PlaySong nat | Drive_direct int int

datatype py_error = AttributeError

text \<open>
  The fields of \<^verbatim>\<open>TetheredDriveApp\<close> the handlers use. \<open>sensor_text\<close> is the
  content of the sensor text widget (up to surrounding white space), \<open>dialogs\<close> the
  message boxes shown (title and message), \<open>calls\<close> the methods called on the robot,
  \<open>logged\<close> the messages given to \<^verbatim>\<open>logging.info\<close>, \<open>destroyed\<close> whether
  \<^verbatim>\<open>self.destroy()\<close> has run. \<open>orphans\<close> holds the schedulers the application
  has dropped its reference to; their timer threads live on.
\<close>

record app =
  robot :: robot_attr
  velocity :: int
  rotation :: int
  sensor_poll_timer :: "world option"
  sensor_polling_active :: bool
  sensor_text :: string
  dialogs :: "(string \<times> string) list"
  calls :: "robot_call list"
  logged :: "string list"
  destroyed :: bool
  orphans :: "world list"

text \<open>
  What a handler reads from outside: the clock, the operator's answer to
  \<^verbatim>\<open>messagebox.askyesno\<close>, and the text \<^verbatim>\<open>_format_sensor_data\<close> makes of the
  record \<^verbatim>\<open>get_sensors()\<close> returns.
\<close>

record env =
  clock :: real
  askyesno :: bool
  sensor_data :: string

definition VELOCITYCHANGE :: int where
  "VELOCITYCHANGE = 200"

definition ROTATIONCHANGE :: int where
  "ROTATIONCHANGE = 300"

text \<open>\<^verbatim>\<open>TetheredDriveApp.__init__\<close>.\<close>

definition app_init :: app where
  "app_init =
     \<lparr>robot = Py_None, velocity = 0, rotation = 0, sensor_poll_timer = None,
      sensor_polling_active = False, sensor_text = [], dialogs = [], calls = [],
      logged = [], destroyed = False, orphans = []\<rparr>"

text \<open>\<^verbatim>\<open>str.upper()\<close> on a key symbol: its ASCII letters become capitals.\<close>

definition upper_char :: "char \<Rightarrow> char" where
  "upper_char c =
     (case map_of (zip ''abcdefghijklmnopqrstuvwxyz'' ''ABCDEFGHIJKLMNOPQRSTUVWXYZ'') c of
        Some u \<Rightarrow> u
      | None \<Rightarrow> c)"

definition upper :: "string \<Rightarrow> string" where
  "upper s = map upper_char s"

text \<open>Python's \<^verbatim>\<open>int()\<close> of a float: truncation toward zero.\<close>

definition py_int :: "real \<Rightarrow> int" where
  "py_int x = (if x < 0 then \<lceil>x\<rceil> else \<lfloor>x\<rfloor>)"

text \<open>Sequencing of statements: an exception ends the handler.\<close>

definition and_then :: "py_error + app \<Rightarrow> (app \<Rightarrow> py_error + app) \<Rightarrow> py_error + app" where
  "and_then r f = (case r of Inl err \<Rightarrow> Inl err | Inr s \<Rightarrow> f s)"

text \<open>
  A method call \<^verbatim>\<open>self.robot.m(...)\<close>: an \<^verbatim>\<open>AttributeError\<close> when the
  attribute is absent or \<^verbatim>\<open>None\<close>.
\<close>

definition robot_method :: "robot_call \<Rightarrow> app \<Rightarrow> py_error + app" where
  "robot_method c s =
     (case robot s of
        Create2 \<Rightarrow> Inr (s\<lparr>calls := calls s @ [c]\<rparr>)
      | Py_None \<Rightarrow> Inl AttributeError
      | Attr_deleted \<Rightarrow> Inl AttributeError)"

text \<open>The decorator \<^verbatim>\<open>require_robot\<close>.\<close>

definition require_robot :: "(app \<Rightarrow> py_error + app) \<Rightarrow> app \<Rightarrow> py_error + app" where
  "require_robot func s =
     (case robot s of
        Attr_deleted \<Rightarrow> Inl AttributeError
      | Py_None \<Rightarrow> Inr (s\<lparr>dialogs := dialogs s @ [(''Error'', ''Robot Not Connected!'')]\<rparr>)
      | Create2 \<Rightarrow> func s)"

text \<open>\<^verbatim>\<open>_set_motion(velocity=None, rotation=None)\<close>.\<close>

definition set_motion :: "int option \<Rightarrow> int option \<Rightarrow> app \<Rightarrow> py_error + app" where
  "set_motion vel rot =
     require_robot (\<lambda>s.
       let s1 = (case vel of None \<Rightarrow> s | Some v \<Rightarrow> s\<lparr>velocity := v\<rparr>);
           s2 = (case rot of None \<Rightarrow> s1 | Some r \<Rightarrow> s1\<lparr>rotation := r\<rparr>);
           vr = py_int (of_int (velocity s2) + of_int (rotation s2) / 2);
           vl = py_int (of_int (velocity s2) - of_int (rotation s2) / 2)
       in robot_method (Drive_direct vl vr) s2)"

text \<open>\<^verbatim>\<open>_beep_song\<close>.\<close>

definition beep_song :: "app \<Rightarrow> py_error + app" where
  "beep_song =
     require_robot (\<lambda>s.
       and_then (robot_method (CreateSong 3 [64, 16]) s) (robot_method (PlaySong 3)))"

text \<open>
  \<^verbatim>\<open>toggle_sensor_polling\<close>. In \<^verbatim>\<open>CustomTimer(0.5, self.poll_sensors, False, repeat=True)\<close>
  the positional \<^verbatim>\<open>False\<close> is the callback's argument (\<^verbatim>\<open>*args\<close>);
  \<^verbatim>\<open>autostart\<close> is keyword-only and keeps its default \<^verbatim>\<open>True\<close>.
\<close>

definition toggle_sensor_polling :: "env \<Rightarrow> app \<Rightarrow> py_error + app" where
  "toggle_sensor_polling e =
     require_robot (\<lambda>s.
       if sensor_polling_active s then
         let s1 = (case sensor_poll_timer s of
                     None \<Rightarrow> s
                   | Some w \<Rightarrow> s\<lparr>sensor_poll_timer := None, orphans := orphans s @ [stop w]\<rparr>)
         in Inr (s1\<lparr>sensor_polling_active := False,
                    logged := logged s1 @ [''Sensor polling stopped.'']\<rparr>)
       else
         Inr (s\<lparr>sensor_poll_timer := Some (init (1 / 2) True True (clock e)),
                 sensor_polling_active := True,
                 logged := logged s @ [''Sensor polling started.'']\<rparr>))"

text \<open>\<^verbatim>\<open>poll_sensors(show_log=False)\<close>, the callback of the polling timer.\<close>

definition poll_sensors :: "bool \<Rightarrow> env \<Rightarrow> app \<Rightarrow> py_error + app" where
  "poll_sensors show_log e =
     require_robot (\<lambda>s.
       and_then (robot_method Get_sensors s) (\<lambda>s1.
         let s2 = (if show_log then s1\<lparr>logged := logged s1 @ [sensor_data e]\<rparr> else s1)
         in Inr (if sensor_text s2 \<noteq> sensor_data e
                 then s2\<lparr>sensor_text := sensor_data e\<rparr> else s2)))"

text \<open>\<^verbatim>\<open>on_quit\<close>.\<close>

definition on_quit :: "env \<Rightarrow> app \<Rightarrow> py_error + app" where
  "on_quit e s =
     (if askyesno e then
        (case robot s of
           Attr_deleted \<Rightarrow> Inl AttributeError
         | Py_None \<Rightarrow> Inr (s\<lparr>destroyed := True\<rparr>)
         | Create2 \<Rightarrow> Inr (s\<lparr>robot := Attr_deleted, destroyed := True\<rparr>))
      else Inr s)"

text \<open>
  \<^verbatim>\<open>handle_keypress\<close>: the dictionary \<^verbatim>\<open>key_mapping\<close>, looked up with the
  upper-cased key symbol; a key that is not in it does nothing.
\<close>

definition handle_keypress :: "string \<Rightarrow> env \<Rightarrow> app \<Rightarrow> py_error + app" where
  "handle_keypress keysym e s =
     (let key = upper keysym in
      if key = ''P'' then robot_method Start s
      else if key = ''S'' then robot_method Safe s
      else if key = ''F'' then robot_method Full s
      else if key = ''C'' then robot_method Clean s
      else if key = ''R'' then robot_method Reset s
      else if key = ''SPACE'' then beep_song s
      else if key = ''B'' then
        and_then (robot_method Get_sensors s)
          (\<lambda>s1. Inr (s1\<lparr>logged := logged s1 @ [sensor_data e]\<rparr>))
      else if key = ''O'' then toggle_sensor_polling e s
      else if key = ''UP'' then set_motion (Some VELOCITYCHANGE) None s
      else if key = ''DOWN'' then set_motion (Some (- VELOCITYCHANGE)) None s
      else if key = ''LEFT'' then set_motion None (Some ROTATIONCHANGE) s
      else if key = ''RIGHT'' then set_motion None (Some (- ROTATIONCHANGE)) s
      else if key = ''ESCAPE'' then on_quit e s
      else Inr s)"

text \<open>\<^verbatim>\<open>handle_keyrelease\<close>.\<close>

definition handle_keyrelease :: "string \<Rightarrow> app \<Rightarrow> py_error + app" where
  "handle_keyrelease keysym s =
     (let key = upper keysym in
      if key = ''UP'' \<or> key = ''DOWN'' then set_motion (Some 0) None s
      else if key = ''LEFT'' \<or> key = ''RIGHT'' then set_motion None (Some 0) s
      else Inr s)"

section \<open>Properties of the timer\<close>

lemmas timer_defs = init_def start_def stop_def run_def run_finally_def falsy_def
  new_timer_def cancel_def Let_def

lemma start_fixed_rate:
  "from_run \<or> stopped (obj w) \<Longrightarrow> next_call (obj w) = Some d \<Longrightarrow> d \<noteq> 0 \<Longrightarrow>
   start from_run now w =
     w\<lparr>obj := (obj w)\<lparr>next_call := Some (d + interval (obj w)),
                        timer := Some (length (heap w)), stopped := False\<rparr>,
       heap := heap w @ [\<lparr>delay = max 0 (d + interval (obj w) - now), status = Waiting\<rparr>]\<rparr>"
  by (simp add: timer_defs)

lemma start_first:
  "from_run \<or> stopped (obj w) \<Longrightarrow> next_call (obj w) = None \<Longrightarrow>
   start from_run now w =
     w\<lparr>obj := (obj w)\<lparr>next_call := Some (now + interval (obj w)),
                        timer := Some (length (heap w)), stopped := False\<rparr>,
       heap := heap w @ [\<lparr>delay = max 0 (now + interval (obj w) - now), status = Waiting\<rparr>]\<rparr>"
  by (simp add: timer_defs)

lemma start_while_running: "\<not> stopped (obj w) \<Longrightarrow> start False now w = w"
  by (simp add: start_def)

lemma waiting_append:
  "filter (\<lambda>i. status ((h @ [t]) ! i) = Waiting) [0..<length h] =
   filter (\<lambda>i. status (h ! i) = Waiting) [0..<length h]"
  by (rule filter_cong) (auto simp: nth_append)

lemma armed_start:
  "from_run \<or> stopped (obj w) \<Longrightarrow> armed (start from_run now w) = armed w @ [length (heap w)]"
  by (simp add: start_def new_timer_def Let_def armed_def waiting_append)

lemma armed_cancel: "armed (w\<lparr>heap := cancel i (heap w)\<rparr>) = filter (\<lambda>j. j \<noteq> i) (armed w)"
  by (auto simp: armed_def cancel_def nth_list_update intro!: filter_cong)

lemma armed_stop:
  "armed (stop w) =
     (case timer (obj w) of None \<Rightarrow> armed w | Some i \<Rightarrow> filter (\<lambda>j. j \<noteq> i) (armed w))"
proof (cases "timer (obj w)")
  case None
  then show ?thesis by (simp add: stop_def armed_def)
next
  case (Some i)
  have "armed (stop w) = armed (w\<lparr>heap := cancel i (heap w)\<rparr>)"
    using Some by (simp add: stop_def armed_def)
  then show ?thesis using Some by (simp add: armed_cancel)
qed

lemma armed_stop_subset: "set (armed (stop w)) \<subseteq> set (armed w)"
  by (auto simp: armed_stop split: option.splits)

lemma start_keeps:
  "interval (obj (start fr now w)) = interval (obj w)"
  "repeat (obj (start fr now w)) = repeat (obj w)"
  by (simp_all add: timer_defs)

lemma start_deadline_pos:
  assumes "0 < interval (obj w)" "0 \<le> now" "\<forall>d. next_call (obj w) = Some d \<longrightarrow> 0 < d"
    "next_call (obj (start fr now w)) = Some d'"
  shows "0 < d'"
proof (cases "fr \<or> stopped (obj w)")
  case False
  then have "start fr now w = w" by (simp add: start_def)
  with assms show ?thesis by simp
next
  case True
  show ?thesis
  proof (cases "next_call (obj w)")
    case None
    with True assms(4) have "d' = now + interval (obj w)" by (simp add: timer_defs)
    with assms(1,2) show ?thesis by simp
  next
    case (Some d)
    with assms(3) have "0 < d" by simp
    with True Some assms(4) have "d' = d + interval (obj w)" by (simp add: timer_defs)
    with \<open>0 < d\<close> assms(1) show ?thesis by simp
  qed
qed

lemma start_deadline_present: "next_call (obj w) \<noteq> None \<Longrightarrow> next_call (obj (start fr now w)) \<noteq> None"
  by (simp add: timer_defs)

lemma step_deadline_pos:
  assumes "0 < I" "interval (obj w) = I" "\<forall>d. next_call (obj w) = Some d \<longrightarrow> 0 < d"
    "clock_nonneg e" "step e w = Some w'"
  shows "interval (obj w') = I \<and> repeat (obj w') = repeat (obj w) \<and>
         (\<forall>d. next_call (obj w') = Some d \<longrightarrow> 0 < d)"
proof (cases e)
  case (CallStart now)
  with assms(5) have w': "w' = start False now w" by simp
  from CallStart assms(4) have "0 \<le> now" by simp
  then show ?thesis
    using start_deadline_pos [of w now False] assms(1,2,3) by (auto simp: w' start_keeps)
next
  case CallStop
  with assms show ?thesis by (auto simp: stop_def)
next
  case (Fire i)
  with assms show ?thesis by (auto split: if_splits)
next
  case (Finish cb now)
  from Finish assms(4) have n: "0 \<le> now" by simp
  show ?thesis
  proof (cases "repeat (obj w)")
    case True
    with Finish assms(5) have w': "w' = (start True now w)\<lparr>inflight := inflight w - 1\<rparr>"
      by (simp add: run_def run_finally_def split: if_splits)
    show ?thesis
      using start_deadline_pos [of w now True] assms(1,2,3) n by (auto simp: w' start_keeps)
  next
    case False
    with Finish assms(5) have w': "w' = (stop w)\<lparr>inflight := inflight w - 1\<rparr>"
      by (simp add: run_def run_finally_def split: if_splits)
    show ?thesis using assms(2) by (simp add: w' stop_def)
  qed
qed

lemma exec_deadline_pos:
  "0 < I \<Longrightarrow> interval (obj w) = I \<Longrightarrow> \<forall>d. next_call (obj w) = Some d \<longrightarrow> 0 < d \<Longrightarrow>
   \<forall>e\<in>set tr. clock_nonneg e \<Longrightarrow> exec tr w = Some w' \<Longrightarrow>
   interval (obj w') = I \<and> repeat (obj w') = repeat (obj w) \<and>
   (\<forall>d. next_call (obj w') = Some d \<longrightarrow> 0 < d)"
proof (induction tr arbitrary: w)
  case Nil
  then show ?case by simp
next
  case (Cons e tr)
  from Cons.prems(5) obtain w1 where s: "step e w = Some w1" and r: "exec tr w1 = Some w'"
    by (auto split: option.splits)
  from Cons.prems(4) have ce: "clock_nonneg e" and ctr: "\<forall>e\<in>set tr. clock_nonneg e"
    by simp_all
  have i1: "interval (obj w1) = I \<and> repeat (obj w1) = repeat (obj w) \<and>
            (\<forall>d. next_call (obj w1) = Some d \<longrightarrow> 0 < d)"
    using step_deadline_pos [OF Cons.prems(1) Cons.prems(2) Cons.prems(3) ce s] .
  have "interval (obj w') = I \<and> repeat (obj w') = repeat (obj w1) \<and>
        (\<forall>d. next_call (obj w') = Some d \<longrightarrow> 0 < d)"
    using Cons.IH [OF Cons.prems(1) _ _ ctr r] i1 by blast
  with i1 show ?case by simp
qed

lemma step_deadline_present:
  assumes "repeat (obj w)" "next_call (obj w) \<noteq> None" "e \<noteq> CallStop" "step e w = Some w'"
  shows "repeat (obj w') \<and> next_call (obj w') \<noteq> None"
proof (cases e)
  case (CallStart now)
  with assms(4) have w': "w' = start False now w" by simp
  show ?thesis using assms(1,2) by (simp add: w' start_keeps start_deadline_present)
next
  case CallStop
  with assms show ?thesis by simp
next
  case (Fire i)
  with assms show ?thesis by (auto split: if_splits)
next
  case (Finish cb now)
  with assms(1,4) have w': "w' = (start True now w)\<lparr>inflight := inflight w - 1\<rparr>"
    by (simp add: run_def run_finally_def split: if_splits)
  show ?thesis using assms(1,2) by (simp add: w' start_keeps start_deadline_present)
qed

lemma exec_deadline_present:
  "repeat (obj w) \<Longrightarrow> next_call (obj w) \<noteq> None \<Longrightarrow> CallStop \<notin> set tr \<Longrightarrow>
   exec tr w = Some w' \<Longrightarrow> next_call (obj w') \<noteq> None"
proof (induction tr arbitrary: w)
  case Nil
  then show ?case by simp
next
  case (Cons e tr)
  from Cons.prems(4) obtain w1 where s: "step e w = Some w1" and r: "exec tr w1 = Some w'"
    by (auto split: option.splits)
  from Cons.prems(3) have ne: "e \<noteq> CallStop" and ntr: "CallStop \<notin> set tr" by auto
  have "repeat (obj w1) \<and> next_call (obj w1) \<noteq> None"
    using step_deadline_present [OF Cons.prems(1) Cons.prems(2) ne s] .
  then show ?case using Cons.IH [OF _ _ ntr r] by blast
qed

lemma finish_rearm:
  "repeat (obj w) \<Longrightarrow> 0 < inflight w \<Longrightarrow> next_call (obj w) = Some d \<Longrightarrow> d \<noteq> 0 \<Longrightarrow>
   step (Finish cb now) w =
     Some (w\<lparr>obj := (obj w)\<lparr>next_call := Some (d + interval (obj w)),
                              timer := Some (length (heap w)), stopped := False\<rparr>,
             heap := heap w @ [\<lparr>delay = max 0 (d + interval (obj w) - now), status = Waiting\<rparr>],
             inflight := inflight w - 1\<rparr>)"
  by (simp add: timer_defs)

text \<open>
  Claim C1 (fixed-rate deadline). Take a repeating timer with a positive interval
  \<open>I\<close>, constructed at a clock value that is not negative, and any run of it whose
  clock values are not negative. The interval stays \<open>I\<close> and a deadline that is
  present is positive, so the truth test \<^verbatim>\<open>not self.next_call\<close> in \<^verbatim>\<open>start\<close>
  is true exactly when no deadline is present. At the end of every firing that finds
  a deadline \<open>d\<close>, the next deadline is \<open>d + I\<close>, whatever the clock reads, and
  the one timer armed has the delay \<open>max 0 (d + I - now)\<close>. A \<^verbatim>\<open>start()\<close> that
  finds no deadline sets it to \<open>now + I\<close>, with the same delay formula. In a run of
  an autostarted timer without \<^verbatim>\<open>stop()\<close> a deadline is always present, so every
  firing takes the fixed-rate branch.
\<close>

theorem fixed_rate_rearm:
  assumes "0 < I" and "0 \<le> t0" and "\<forall>e\<in>set tr. clock_nonneg e"
    and "exec tr (init I True auto t0) = Some w"
  shows "interval (obj w) = I \<and> repeat (obj w) \<and>
    (\<forall>d. next_call (obj w) = Some d \<longrightarrow> 0 < d) \<and>
    (auto \<and> CallStop \<notin> set tr \<longrightarrow> next_call (obj w) \<noteq> None) \<and>
    (\<forall>cb now d. 0 < inflight w \<and> next_call (obj w) = Some d \<longrightarrow>
       step (Finish cb now) w =
         Some (w\<lparr>obj := (obj w)\<lparr>next_call := Some (d + I),
                                  timer := Some (length (heap w)), stopped := False\<rparr>,
                 heap := heap w @ [\<lparr>delay = max 0 (d + I - now), status = Waiting\<rparr>],
                 inflight := inflight w - 1\<rparr>)) \<and>
    (\<forall>now. stopped (obj w) \<and> next_call (obj w) = None \<longrightarrow>
       start False now w =
         w\<lparr>obj := (obj w)\<lparr>next_call := Some (now + I),
                            timer := Some (length (heap w)), stopped := False\<rparr>,
           heap := heap w @ [\<lparr>delay = max 0 (now + I - now), status = Waiting\<rparr>]\<rparr>)"
proof -
  let ?w0 = "init I True auto t0"
  have i0: "interval (obj ?w0) = I" "repeat (obj ?w0)"
    "\<forall>d. next_call (obj ?w0) = Some d \<longrightarrow> 0 < d"
    using assms(1,2) by (auto simp: timer_defs)
  have inv: "interval (obj w) = I \<and> repeat (obj w) = repeat (obj ?w0) \<and>
             (\<forall>d. next_call (obj w) = Some d \<longrightarrow> 0 < d)"
    using exec_deadline_pos [OF assms(1) i0(1) i0(3) assms(3) assms(4)] .
  have rep: "repeat (obj w)" using inv i0(2) by simp
  have pres: "auto \<and> CallStop \<notin> set tr \<longrightarrow> next_call (obj w) \<noteq> None"
  proof
    assume a: "auto \<and> CallStop \<notin> set tr"
    then have "next_call (obj ?w0) \<noteq> None" by (simp add: timer_defs)
    then show "next_call (obj w) \<noteq> None"
      using exec_deadline_present [OF i0(2) _ _ assms(4)] a by blast
  qed
  have fin: "\<forall>cb now d. 0 < inflight w \<and> next_call (obj w) = Some d \<longrightarrow>
       step (Finish cb now) w =
         Some (w\<lparr>obj := (obj w)\<lparr>next_call := Some (d + I),
                                  timer := Some (length (heap w)), stopped := False\<rparr>,
                 heap := heap w @ [\<lparr>delay = max 0 (d + I - now), status = Waiting\<rparr>],
                 inflight := inflight w - 1\<rparr>)"
  proof (intro allI impI)
    fix cb now d
    assume h: "0 < inflight w \<and> next_call (obj w) = Some d"
    then have "d \<noteq> 0" using inv by auto
    then show "step (Finish cb now) w =
         Some (w\<lparr>obj := (obj w)\<lparr>next_call := Some (d + I),
                                  timer := Some (length (heap w)), stopped := False\<rparr>,
                 heap := heap w @ [\<lparr>delay = max 0 (d + I - now), status = Waiting\<rparr>],
                 inflight := inflight w - 1\<rparr>)"
      using finish_rearm [of w d cb now] rep h inv by simp
  qed
  have st: "\<forall>now. stopped (obj w) \<and> next_call (obj w) = None \<longrightarrow>
       start False now w =
         w\<lparr>obj := (obj w)\<lparr>next_call := Some (now + I),
                            timer := Some (length (heap w)), stopped := False\<rparr>,
           heap := heap w @ [\<lparr>delay = max 0 (now + I - now), status = Waiting\<rparr>]\<rparr>"
    using start_first [of False w] inv by auto
  show ?thesis using inv rep pres fin st by blast
qed

theorem fixed_rate_rearm_witness:
  "exec [Fire 0, Finish Returned (7 / 10), Fire 1] (init (1 / 2) True True 0) =
     Some \<lparr>obj = \<lparr>interval = 1 / 2, repeat = True, timer = Some 1, stopped = False,
                  next_call = Some 1\<rparr>,
           heap = [\<lparr>delay = 1 / 2, status = Fired\<rparr>, \<lparr>delay = 3 / 10, status = Fired\<rparr>],
           inflight = 1\<rparr> \<and>
   exec [Fire 0, Finish Returned (7 / 10), Fire 1, Finish Raised (9 / 5)]
        (init (1 / 2) True True 0) =
     Some \<lparr>obj = \<lparr>interval = 1 / 2, repeat = True, timer = Some 2, stopped = False,
                  next_call = Some (3 / 2)\<rparr>,
           heap = [\<lparr>delay = 1 / 2, status = Fired\<rparr>, \<lparr>delay = 3 / 10, status = Fired\<rparr>,
                   \<lparr>delay = 0, status = Waiting\<rparr>],
           inflight = 0\<rparr>"
proof -
  have h1: "(0::real) < 1 / 2" and h2: "(0::real) \<le> 0" by simp_all
  have h3: "\<forall>e\<in>set [Fire 0, Finish Returned (7 / 10), Fire 1]. clock_nonneg e" by simp
  have h4: "exec [Fire 0, Finish Returned (7 / 10), Fire 1] (init (1 / 2) True True 0) =
     Some \<lparr>obj = \<lparr>interval = 1 / 2, repeat = True, timer = Some 1, stopped = False,
                  next_call = Some 1\<rparr>,
           heap = [\<lparr>delay = 1 / 2, status = Fired\<rparr>, \<lparr>delay = 3 / 10, status = Fired\<rparr>],
           inflight = 1\<rparr>"
    by (simp add: timer_defs)
  show ?thesis
    using h4 fixed_rate_rearm [OF h1 h2 h3 h4] by (simp add: timer_defs)
qed

text \<open>
  Claim C2 (no firing is armed after \<^verbatim>\<open>stop()\<close> has returned). It fails when
  \<^verbatim>\<open>stop()\<close> runs while a callback is in flight: for every interval, every clock
  value and either outcome of the callback, after the timer of a freshly constructed
  repeating scheduler has expired and \<^verbatim>\<open>stop()\<close> has returned, no timer is armed and
  the scheduler is stopped; the \<^verbatim>\<open>finally\<close> clause of the firing then calls
  \<^verbatim>\<open>start(from_run=True)\<close>, which skips the test of \<^verbatim>\<open>_stopped\<close>, arms a new
  timer and marks the scheduler as running, and that timer can fire.
\<close>

theorem stop_then_rearm:
  "map_option (\<lambda>w. (armed w, stopped (obj w), timer (obj w)))
     (exec [Fire 0, CallStop] (init I True True t0)) = Some ([], True, None) \<and>
   map_option (\<lambda>w. (armed w, stopped (obj w), timer (obj w), next_call (obj w)))
     (exec [Fire 0, CallStop, Finish cb t] (init I True True t0))
     = Some ([1], False, Some 1, Some (t + I)) \<and>
   exec [Fire 0, CallStop, Finish cb t, Fire 1] (init I True True t0) \<noteq> None"
  by (simp add: timer_defs armed_def)

text \<open>
  Claim C5 (a failing callback does not break the schedule). The state \<^verbatim>\<open>_run\<close>
  leaves is the same whether the callback raises or returns, and the exception
  propagates. In repeat mode the scheduler is running again, its handle is the one
  newly armed timer, and a deadline \<open>d\<close> (present, not zero) has become
  \<open>d + interval\<close> with the timer's delay \<open>max 0 (d + interval - now)\<close>. In one-shot
  mode the scheduler is stopped, holds no handle and no deadline, nothing new is
  armed and the timer it referred to is not armed.
\<close>

theorem run_callback_failure:
  "fst (run Raised now w) = fst (run Returned now w) \<and>
   snd (run Raised now w) = Raised \<and>
   (repeat (obj w) \<longrightarrow>
      stopped (obj (fst (run Raised now w))) = False \<and>
      timer (obj (fst (run Raised now w))) = Some (length (heap w)) \<and>
      armed (fst (run Raised now w)) = armed w @ [length (heap w)] \<and>
      (\<forall>d. next_call (obj w) = Some d \<and> d \<noteq> 0 \<longrightarrow>
         next_call (obj (fst (run Raised now w))) = Some (d + interval (obj w)) \<and>
         heap (fst (run Raised now w)) =
           heap w @ [\<lparr>delay = max 0 (d + interval (obj w) - now), status = Waiting\<rparr>])) \<and>
   (\<not> repeat (obj w) \<longrightarrow>
      stopped (obj (fst (run Raised now w))) \<and>
      timer (obj (fst (run Raised now w))) = None \<and>
      next_call (obj (fst (run Raised now w))) = None \<and>
      set (armed (fst (run Raised now w))) \<subseteq> set (armed w) \<and>
      (\<forall>i. timer (obj w) = Some i \<longrightarrow> i \<notin> set (armed (fst (run Raised now w)))))"
proof -
  have same: "fst (run Raised now w) = fst (run Returned now w)" "snd (run Raised now w) = Raised"
    by (simp_all add: run_def)
  have rep: "repeat (obj w) \<Longrightarrow> fst (run Raised now w) = start True now w"
    by (simp add: run_def run_finally_def)
  have one: "\<not> repeat (obj w) \<Longrightarrow> fst (run Raised now w) = stop w"
    by (simp add: run_def run_finally_def)
  have r1: "stopped (obj (start True now w)) = False"
    "timer (obj (start True now w)) = Some (length (heap w))"
    by (simp_all add: timer_defs)
  have r2: "armed (start True now w) = armed w @ [length (heap w)]"
    by (simp add: armed_start)
  have r3: "\<And>d. next_call (obj w) = Some d \<and> d \<noteq> 0 \<Longrightarrow>
      next_call (obj (start True now w)) = Some (d + interval (obj w)) \<and>
      heap (start True now w) =
        heap w @ [\<lparr>delay = max 0 (d + interval (obj w) - now), status = Waiting\<rparr>]"
    by (simp add: timer_defs)
  have s1: "stopped (obj (stop w))" "timer (obj (stop w)) = None" "next_call (obj (stop w)) = None"
    by (simp_all add: stop_def)
  have s3: "\<And>i. timer (obj w) = Some i \<Longrightarrow> i \<notin> set (armed (stop w))"
    by (simp add: armed_stop)
  show ?thesis
    using same rep one r1 r2 r3 s1 armed_stop_subset [of w] s3
    by (cases "repeat (obj w)") simp_all
qed

theorem run_callback_failure_witness:
  "fst (run Raised (3 / 5)
     \<lparr>obj = \<lparr>interval = 1 / 2, repeat = True, timer = Some 0, stopped = False,
             next_call = Some (1 / 2)\<rparr>,
      heap = [\<lparr>delay = 1 / 2, status = Fired\<rparr>], inflight = 1\<rparr>) =
   \<lparr>obj = \<lparr>interval = 1 / 2, repeat = True, timer = Some 1, stopped = False,
           next_call = Some 1\<rparr>,
    heap = [\<lparr>delay = 1 / 2, status = Fired\<rparr>, \<lparr>delay = 2 / 5, status = Waiting\<rparr>],
    inflight = 1\<rparr> \<and>
   fst (run Raised (3 / 5)
     \<lparr>obj = \<lparr>interval = 1 / 2, repeat = False, timer = Some 0, stopped = False,
             next_call = Some (1 / 2)\<rparr>,
      heap = [\<lparr>delay = 1 / 2, status = Fired\<rparr>], inflight = 1\<rparr>) =
   \<lparr>obj = \<lparr>interval = 1 / 2, repeat = False, timer = None, stopped = True,
           next_call = None\<rparr>,
    heap = [\<lparr>delay = 1 / 2, status = Fired\<rparr>], inflight = 1\<rparr>"
  using
    run_callback_failure [of "3 / 5"
      "\<lparr>obj = \<lparr>interval = 1 / 2, repeat = True, timer = Some 0, stopped = False,
              next_call = Some (1 / 2)\<rparr>,
        heap = [\<lparr>delay = 1 / 2, status = Fired\<rparr>], inflight = 1\<rparr>"]
    run_callback_failure [of "3 / 5"
      "\<lparr>obj = \<lparr>interval = 1 / 2, repeat = False, timer = Some 0, stopped = False,
              next_call = Some (1 / 2)\<rparr>,
        heap = [\<lparr>delay = 1 / 2, status = Fired\<rparr>], inflight = 1\<rparr>"]
  by (simp add: timer_defs)

lemma restart_sequential:
  "start False now (stop w) =
     w\<lparr>obj := (obj w)\<lparr>next_call := Some (now + interval (obj w)),
                        timer := Some (length (heap w)), stopped := False\<rparr>,
       heap := (case timer (obj w) of None \<Rightarrow> heap w | Some i \<Rightarrow> cancel i (heap w)) @
               [\<lparr>delay = max 0 (interval (obj w)), status = Waiting\<rparr>]\<rparr>"
  by (simp add: timer_defs split: option.splits)

text \<open>
  Claim C7 (restart resets the cadence). With no step of a timer thread between the
  two calls, \<^verbatim>\<open>stop()\<close> followed by \<^verbatim>\<open>start()\<close> sets the deadline to the clock
  value plus one interval (\<open>restart_sequential\<close>). With a callback in flight it does
  not: \<^verbatim>\<open>stop()\<close> returns, the \<^verbatim>\<open>finally\<close> clause of the firing calls
  \<^verbatim>\<open>start(from_run=True)\<close>, which rearms from its own clock value \<open>t\<close> and marks
  the scheduler as running, and the later \<^verbatim>\<open>start()\<close> at \<open>t'\<close> finds
  \<^verbatim>\<open>_stopped\<close> false and does nothing. The deadline stays \<open>t + I\<close>; for interval
  \<open>0.5\<close>, \<open>t = 0.7\<close> and \<open>t' = 10\<close> it is \<open>1.2\<close>, not \<open>10.5\<close>.
\<close>

theorem restart_overtaken_by_rearm:
  "exec [Fire 0, CallStop, Finish cb t, CallStart t'] (init I True True t0) =
   exec [Fire 0, CallStop, Finish cb t] (init I True True t0) \<and>
   map_option (\<lambda>w. (next_call (obj w), armed w))
     (exec [Fire 0, CallStop, Finish cb t, CallStart t'] (init I True True t0)) =
     Some (Some (t + I), [1]) \<and>
   map_option (\<lambda>w. next_call (obj w))
     (exec [Fire 0, CallStop, Finish Returned (7 / 10), CallStart 10] (init (1 / 2) True True 0)) =
     Some (Some (6 / 5)) \<and>
   (6 / 5 :: real) \<noteq> 10 + 1 / 2"
  by (simp add: timer_defs armed_def)

text \<open>
  Claim C8 (stop is idempotent). A second \<^verbatim>\<open>stop()\<close> changes nothing, and neither
  does \<^verbatim>\<open>stop()\<close> on a scheduler constructed with \<^verbatim>\<open>autostart=False\<close> and never
  started. After \<^verbatim>\<open>stop()\<close> the scheduler is stopped with no handle and no
  deadline; \<^verbatim>\<open>stop()\<close> arms no timer and enters no callback, and on the scheduler
  that was never started no timer can fire.
\<close>

theorem stop_idempotent:
  "stop (stop w) = stop w \<and>
   stop (init I rep False now) = init I rep False now \<and>
   stopped (obj (stop w)) \<and> timer (obj (stop w)) = None \<and> next_call (obj (stop w)) = None \<and>
   set (armed (stop w)) \<subseteq> set (armed w) \<and>
   inflight (stop w) = inflight w \<and>
   (\<forall>i. step (Fire i) (stop (init I rep False now)) = None)"
  using armed_stop_subset [of w] by (simp add: stop_def init_def)

theorem stop_idempotent_witness:
  "stop (stop (init (1 / 2) True True 0)) =
     \<lparr>obj = \<lparr>interval = 1 / 2, repeat = True, timer = None, stopped = True, next_call = None\<rparr>,
      heap = [\<lparr>delay = 1 / 2, status = Cancelled\<rparr>], inflight = 0\<rparr> \<and>
   stop (init (1 / 2) True True 0) = stop (stop (init (1 / 2) True True 0)) \<and>
   armed (stop (init (1 / 2) True True 0)) = []"
  using stop_idempotent [of "init (1 / 2) True True 0" "1 / 2" True 0]
  by (simp add: timer_defs armed_def)

lemma exec_unstarted:
  "heap w = [] \<Longrightarrow> inflight w = 0 \<Longrightarrow> stop w = w \<Longrightarrow> \<forall>t. CallStart t \<notin> set tr \<Longrightarrow>
   exec tr w = Some w' \<Longrightarrow> w' = w \<and> set tr \<subseteq> {CallStop}"
proof (induction tr)
  case Nil
  then show ?case by simp
next
  case (Cons e tr)
  show ?case
  proof (cases e)
    case (CallStart t)
    with Cons.prems show ?thesis by auto
  next
    case CallStop
    with Cons show ?thesis by auto
  next
    case (Fire i)
    with Cons.prems show ?thesis by simp
  next
    case (Finish cb t)
    with Cons.prems show ?thesis by simp
  qed
qed

text \<open>
  Claim C10 (autostart). With \<^verbatim>\<open>autostart=True\<close> the constructor leaves the
  scheduler running with the deadline at construction time plus the interval and one
  armed timer; with \<^verbatim>\<open>autostart=False\<close> it leaves it stopped with no deadline and
  no timer, and in every run of the scheduler in which \<^verbatim>\<open>start()\<close> is not called no
  timer fires and the state stays what the constructor left.
\<close>

theorem init_autostart:
  "init I rep True now =
     \<lparr>obj = \<lparr>interval = I, repeat = rep, timer = Some 0, stopped = False,
             next_call = Some (now + I)\<rparr>,
      heap = [\<lparr>delay = max 0 I, status = Waiting\<rparr>], inflight = 0\<rparr> \<and>
   armed (init I rep True now) = [0] \<and>
   init I rep False now =
     \<lparr>obj = \<lparr>interval = I, repeat = rep, timer = None, stopped = True, next_call = None\<rparr>,
      heap = [], inflight = 0\<rparr> \<and>
   (\<forall>tr w. (\<forall>t. CallStart t \<notin> set tr) \<and> exec tr (init I rep False now) = Some w \<longrightarrow>
      (\<forall>i. Fire i \<notin> set tr) \<and> w = init I rep False now)"
proof -
  let ?w0 = "init I rep False now"
  have a: "heap ?w0 = []" "inflight ?w0 = 0" "stop ?w0 = ?w0"
    by (simp_all add: init_def stop_def)
  have b: "\<And>tr w. (\<forall>t. CallStart t \<notin> set tr) \<and> exec tr ?w0 = Some w \<Longrightarrow>
             (\<forall>i. Fire i \<notin> set tr) \<and> w = ?w0"
    using exec_unstarted [OF a] by blast
  have c: "armed (init I rep True now) = [0]"
    by (simp add: timer_defs armed_def)
  show ?thesis using b c by (simp add: timer_defs)
qed

theorem init_autostart_witness:
  "exec [CallStop, CallStop] (init (1 / 2) True False 0) = Some (init (1 / 2) True False 0) \<and>
   step (Fire 0) (init (1 / 2) True False 0) = None \<and>
   next_call (obj (init (1 / 2) True True 0)) = Some (1 / 2) \<and>
   step (Fire 0) (init (1 / 2) True True 0) \<noteq> None"
  using init_autostart [of "1 / 2" True 0]
  by (simp add: timer_defs)

section \<open>Properties of the application\<close>

lemmas app_defs = handle_keypress_def handle_keyrelease_def set_motion_def require_robot_def
  robot_method_def beep_song_def toggle_sensor_polling_def poll_sensors_def on_quit_def
  and_then_def app_init_def upper_def upper_char_def VELOCITYCHANGE_def ROTATIONCHANGE_def

lemma py_int_truncates: "\<bar>of_int (py_int x)\<bar> \<le> \<bar>x\<bar> \<and> \<bar>x - of_int (py_int x)\<bar> < 1"
  unfolding py_int_def by (cases "x < 0") (simp_all, linarith+)

lemma py_int_of_int [simp]: "py_int (of_int n) = n"
  by (simp add: py_int_def)

lemma set_motion_connected:
  "robot s = Create2 \<Longrightarrow>
   set_motion vel rot s =
     Inr (s\<lparr>velocity := (case vel of None \<Rightarrow> velocity s | Some x \<Rightarrow> x),
            rotation := (case rot of None \<Rightarrow> rotation s | Some x \<Rightarrow> x),
            calls := calls s @
              [Drive_direct
                 (py_int (of_int (case vel of None \<Rightarrow> velocity s | Some x \<Rightarrow> x)
                          - of_int (case rot of None \<Rightarrow> rotation s | Some x \<Rightarrow> x) / 2))
                 (py_int (of_int (case vel of None \<Rightarrow> velocity s | Some x \<Rightarrow> x)
                          + of_int (case rot of None \<Rightarrow> rotation s | Some x \<Rightarrow> x) / 2))]\<rparr>)"
  by (simp add: set_motion_def require_robot_def robot_method_def Let_def split: option.splits)

lemma guarded_disconnected:
  "robot s = Py_None \<Longrightarrow>
   require_robot func s = Inr (s\<lparr>dialogs := dialogs s @ [(''Error'', ''Robot Not Connected!'')]\<rparr>)"
  by (simp add: require_robot_def)

text \<open>
  Claim C3 (every command is rejected with a reported error while disconnected). The
  handlers wrapped by \<^verbatim>\<open>require_robot\<close> (beep, toggle polling, motion) show the
  error dialog and touch nothing else. The entries of \<^verbatim>\<open>key_mapping\<close> for P, S, F,
  C, R and B call a method on \<^verbatim>\<open>self.robot\<close> directly: with \<^verbatim>\<open>self.robot\<close> equal
  to \<^verbatim>\<open>None\<close> they raise \<^verbatim>\<open>AttributeError\<close> out of \<^verbatim>\<open>handle_keypress\<close>, and no
  dialog is shown.
\<close>

theorem mode_keys_unguarded:
  "handle_keypress ''p'' e app_init = Inl AttributeError \<and>
   handle_keypress ''s'' e app_init = Inl AttributeError \<and>
   handle_keypress ''f'' e app_init = Inl AttributeError \<and>
   handle_keypress ''c'' e app_init = Inl AttributeError \<and>
   handle_keypress ''r'' e app_init = Inl AttributeError \<and>
   handle_keypress ''b'' e app_init = Inl AttributeError \<and>
   handle_keypress ''space'' e app_init =
     Inr (app_init\<lparr>dialogs := [(''Error'', ''Robot Not Connected!'')]\<rparr>) \<and>
   handle_keypress ''o'' e app_init =
     Inr (app_init\<lparr>dialogs := [(''Error'', ''Robot Not Connected!'')]\<rparr>) \<and>
   handle_keypress ''Up'' e app_init =
     Inr (app_init\<lparr>dialogs := [(''Error'', ''Robot Not Connected!'')]\<rparr>)"
  by (simp add: app_defs)

text \<open>
  Claim C4 (quit stops the polling scheduler before it releases the robot).
  \<^verbatim>\<open>on_quit\<close> never touches \<^verbatim>\<open>sensor_poll_timer\<close>. Starting the polling on a
  connected application and then quitting (answering yes) deletes the robot attribute
  and destroys the window while the scheduler is still running with its timer armed;
  that timer can fire, and the callback \<^verbatim>\<open>poll_sensors\<close> then raises
  \<^verbatim>\<open>AttributeError\<close> on the deleted attribute.
\<close>

theorem quit_leaves_polling_armed:
  "and_then (toggle_sensor_polling \<lparr>clock = 0, askyesno = True, sensor_data = d\<rparr>
               (app_init\<lparr>robot := Create2\<rparr>))
            (on_quit \<lparr>clock = 0, askyesno = True, sensor_data = d\<rparr>) =
     Inr (app_init\<lparr>robot := Attr_deleted,
                   sensor_poll_timer := Some (init (1 / 2) True True 0),
                   sensor_polling_active := True,
                   logged := [''Sensor polling started.''],
                   destroyed := True\<rparr>) \<and>
   stopped (obj (init (1 / 2) True True 0)) = False \<and>
   armed (init (1 / 2) True True 0) = [0] \<and>
   step (Fire 0) (init (1 / 2) True True 0) \<noteq> None \<and>
   poll_sensors False \<lparr>clock = 1 / 2, askyesno = True, sensor_data = d\<rparr>
     (app_init\<lparr>robot := Attr_deleted,
               sensor_poll_timer := Some (init (1 / 2) True True 0),
               sensor_polling_active := True,
               logged := [''Sensor polling started.''],
               destroyed := True\<rparr>) = Inl AttributeError"
  by (simp add: app_defs timer_defs armed_def)

text \<open>
  Claim C6 (the drive command). On a connected application \<^verbatim>\<open>_set_motion\<close>
  commits the axes it is given, keeps the other, and sends \<^verbatim>\<open>drive_direct\<close> with
  \<open>left\<close> the value of \<open>velocity - rotation / 2\<close> and \<open>right\<close> the value of
  \<open>velocity + rotation / 2\<close> of the committed pair, each truncated toward zero
  (an integer no larger in magnitude than the exact value and less than one away from
  it). Velocity 200 then rotation 300 sends (200, 200) and then (50, 350); rotation
  back to 0 sends (200, 200).
\<close>

theorem set_motion_drive_command:
  "(robot s = Create2 \<longrightarrow>
      (let v = (case vel of None \<Rightarrow> velocity s | Some x \<Rightarrow> x);
           r = (case rot of None \<Rightarrow> rotation s | Some x \<Rightarrow> x);
           left = py_int (of_int v - of_int r / 2);
           right = py_int (of_int v + of_int r / 2)
       in set_motion vel rot s =
            Inr (s\<lparr>velocity := v, rotation := r, calls := calls s @ [Drive_direct left right]\<rparr>) \<and>
          \<bar>of_int left\<bar> \<le> \<bar>of_int v - of_int r / (2::real)\<bar> \<and>
          \<bar>of_int v - of_int r / (2::real) - of_int left\<bar> < 1 \<and>
          \<bar>of_int right\<bar> \<le> \<bar>of_int v + of_int r / (2::real)\<bar> \<and>
          \<bar>of_int v + of_int r / (2::real) - of_int right\<bar> < 1)) \<and>
   and_then (set_motion (Some 200) None (app_init\<lparr>robot := Create2\<rparr>)) (set_motion None (Some 300)) =
     Inr (app_init\<lparr>robot := Create2, velocity := 200, rotation := 300,
                   calls := [Drive_direct 200 200, Drive_direct 50 350]\<rparr>) \<and>
   and_then (and_then (set_motion (Some 200) None (app_init\<lparr>robot := Create2\<rparr>))
               (set_motion None (Some 300))) (set_motion None (Some 0)) =
     Inr (app_init\<lparr>robot := Create2, velocity := 200, rotation := 0,
                   calls := [Drive_direct 200 200, Drive_direct 50 350, Drive_direct 200 200]\<rparr>)"
proof -
  have gen: "robot s = Create2 \<longrightarrow>
      (let v = (case vel of None \<Rightarrow> velocity s | Some x \<Rightarrow> x);
           r = (case rot of None \<Rightarrow> rotation s | Some x \<Rightarrow> x);
           left = py_int (of_int v - of_int r / 2);
           right = py_int (of_int v + of_int r / 2)
       in set_motion vel rot s =
            Inr (s\<lparr>velocity := v, rotation := r, calls := calls s @ [Drive_direct left right]\<rparr>) \<and>
          \<bar>of_int left\<bar> \<le> \<bar>of_int v - of_int r / (2::real)\<bar> \<and>
          \<bar>of_int v - of_int r / (2::real) - of_int left\<bar> < 1 \<and>
          \<bar>of_int right\<bar> \<le> \<bar>of_int v + of_int r / (2::real)\<bar> \<and>
          \<bar>of_int v + of_int r / (2::real) - of_int right\<bar> < 1)"
    unfolding Let_def using set_motion_connected [of s vel rot] py_int_truncates by blast
  have c1: "and_then (set_motion (Some 200) None (app_init\<lparr>robot := Create2\<rparr>)) (set_motion None (Some 300)) =
     Inr (app_init\<lparr>robot := Create2, velocity := 200, rotation := 300,
                   calls := [Drive_direct 200 200, Drive_direct 50 350]\<rparr>)"
    by (simp add: app_defs py_int_def)
  have c2: "and_then (and_then (set_motion (Some 200) None (app_init\<lparr>robot := Create2\<rparr>))
               (set_motion None (Some 300))) (set_motion None (Some 0)) =
     Inr (app_init\<lparr>robot := Create2, velocity := 200, rotation := 0,
                   calls := [Drive_direct 200 200, Drive_direct 50 350, Drive_direct 200 200]\<rparr>)"
    by (simp add: app_defs py_int_def)
  show ?thesis using gen c1 c2 by blast
qed

theorem set_motion_drive_command_witness:
  "robot (app_init\<lparr>robot := Create2\<rparr>) = Create2 \<and>
   set_motion (Some (- 1)) (Some 1) (app_init\<lparr>robot := Create2\<rparr>) =
     Inr (app_init\<lparr>robot := Create2, velocity := - 1, rotation := 1,
                   calls := [Drive_direct (- 1) 0]\<rparr>)"
  using set_motion_drive_command [of "app_init\<lparr>robot := Create2\<rparr>" "Some (- 1)" "Some 1"]
  by (simp add: app_init_def py_int_def Let_def ceiling_eq_iff)

text \<open>
  Claim C9 (a key release resets only its own axis). On a connected application,
  releasing UP or DOWN sets the velocity to 0, leaves the rotation as it is and sends
  the command of the pair (0, rotation); releasing LEFT or RIGHT sets the rotation to
  0, leaves the velocity as it is and sends the command (velocity, velocity) of the
  pair (velocity, 0). Nothing else of the application changes.
\<close>

theorem keyrelease_resets_one_axis:
  "robot s = Create2 \<longrightarrow>
     ((upper k = ''UP'' \<or> upper k = ''DOWN'') \<longrightarrow>
        handle_keyrelease k s =
          Inr (s\<lparr>velocity := 0,
                 calls := calls s @
                   [Drive_direct (py_int (0 - of_int (rotation s) / 2))
                                 (py_int (0 + of_int (rotation s) / 2))]\<rparr>)) \<and>
     ((upper k = ''LEFT'' \<or> upper k = ''RIGHT'') \<longrightarrow>
        handle_keyrelease k s =
          Inr (s\<lparr>rotation := 0, calls := calls s @ [Drive_direct (velocity s) (velocity s)]\<rparr>))"
  by (auto simp: handle_keyrelease_def set_motion_connected Let_def)

theorem keyrelease_resets_one_axis_witness:
  "upper ''Up'' = ''UP'' \<and> upper ''Left'' = ''LEFT'' \<and>
   handle_keyrelease ''Up'' (app_init\<lparr>robot := Create2, velocity := 200, rotation := 300\<rparr>) =
     Inr (app_init\<lparr>robot := Create2, velocity := 0, rotation := 300,
                   calls := [Drive_direct (- 150) 150]\<rparr>) \<and>
   handle_keyrelease ''Left'' (app_init\<lparr>robot := Create2, velocity := 200, rotation := 300\<rparr>) =
     Inr (app_init\<lparr>robot := Create2, velocity := 200, rotation := 0,
                   calls := [Drive_direct 200 200]\<rparr>)"
  using
    keyrelease_resets_one_axis
      [of "app_init\<lparr>robot := Create2, velocity := 200, rotation := 300\<rparr>" "''Up''"]
    keyrelease_resets_one_axis
      [of "app_init\<lparr>robot := Create2, velocity := 200, rotation := 300\<rparr>" "''Left''"]
  by (simp add: app_init_def upper_def upper_char_def py_int_def)

end
